theory Spec2Isabelle
  imports Main "HOL-Library.Sublist" "HOL-Library.AList"
begin

section \<open>The CSV to PostgreSQL pipeline of \<^verbatim>\<open>src/pipeline.py\<close>\<close>

subsection \<open>Data model\<close>

text \<open>
  \<^verbatim>\<open>read_csv_to_dataframe\<close> reads every field with \<^verbatim>\<open>dtype=str\<close>, so a cell of a
  frame is a text or a missing value (\<^verbatim>\<open>NaN\<close> / \<^verbatim>\<open>pd.NA\<close>): a \<open>string option\<close>, with
  \<open>None\<close> for the missing value. A character stands for a code point below 256.

  A frame has its column labels and its rows; a row carries its index label next to its
  values, because \<^verbatim>\<open>drop_duplicates\<close> keeps the label of a row it retains. The column
  labels of a frame read by \<^verbatim>\<open>read_csv\<close> are distinct; pandas also admits a frame in
  which a label is repeated, and the model keeps it, since \<^verbatim>\<open>df[label]\<close> depends on it.
\<close>

type_synonym cell = "string option"

record dataframe =
  columns :: "string list"
  rows :: "(nat \<times> cell list) list"

text \<open>\<^verbatim>\<open>df.empty\<close>: true when any of the two axes has length 0.\<close>

definition df_empty :: "dataframe \<Rightarrow> bool" where
  "df_empty df = (columns df = [] \<or> rows df = [])"

text \<open>\<^verbatim>\<open>len(df)\<close>: the number of rows.\<close>

definition df_len :: "dataframe \<Rightarrow> nat" where
  "df_len df = length (rows df)"

text \<open>\<^verbatim>\<open>df.head(0)\<close>: the same columns, no row.\<close>

definition df_head :: "nat \<Rightarrow> dataframe \<Rightarrow> dataframe" where
  "df_head n df = df\<lparr>rows := take n (rows df)\<rparr>"

subsection \<open>Normalization: \<^verbatim>\<open>clean_dataframe\<close>\<close>

text \<open>
  Line 57: \<^verbatim>\<open>df.replace({"": pd.NA, "NA": pd.NA, "N/A": pd.NA, "null": pd.NA, "None": pd.NA})\<close>.
  The dictionary maps a value to look for to its replacement; a cell is replaced when it
  equals a key, and a missing value equals no key.
\<close>

definition to_replace :: "(string \<times> cell) list" where
  "to_replace = [('''', None), (''NA'', None), (''N/A'', None), (''null'', None), (''None'', None)]"

definition replace_cell :: "(string \<times> cell) list \<Rightarrow> cell \<Rightarrow> cell" where
  "replace_cell d c =
     (case c of
        None \<Rightarrow> None
      | Some s \<Rightarrow> (case map_of d s of None \<Rightarrow> Some s | Some v \<Rightarrow> v))"

definition df_replace :: "(string \<times> cell) list \<Rightarrow> dataframe \<Rightarrow> dataframe" where
  "df_replace d df = df\<lparr>rows := map (\<lambda>(l, r). (l, map (replace_cell d) r)) (rows df)\<rparr>"

text \<open>
  \<^verbatim>\<open>str.strip()\<close> without argument removes the leading and trailing characters that
  \<^verbatim>\<open>str.isspace\<close> accepts; below 256 these are the code points 9 to 13, 28 to 32, 133
  and 160.
\<close>

definition isspace :: "char \<Rightarrow> bool" where
  "isspace c = (of_char c \<in> {9, 10, 11, 12, 13, 28, 29, 30, 31, 32, 133, 160 :: nat})"

definition strip :: "string \<Rightarrow> string" where
  "strip s = rev (dropWhile isspace (rev (dropWhile isspace s)))"

text \<open>\<^verbatim>\<open>.astype("string").str.strip()\<close> on one cell: a missing value stays missing.\<close>

definition strip_cell :: "cell \<Rightarrow> cell" where
  "strip_cell c = map_option strip c"

text \<open>Line 62 for the column at position \<open>j\<close>: the column is replaced by its trimmed cells.\<close>

definition strip_column :: "nat \<Rightarrow> dataframe \<Rightarrow> dataframe" where
  "strip_column j df = df\<lparr>rows := map (\<lambda>(l, r). (l, r[j := strip_cell (r ! j)])) (rows df)\<rparr>"

text \<open>
  Lines 60 to 62: the loop over the labels in \<^verbatim>\<open>df.columns\<close>. \<^verbatim>\<open>df[column_name]\<close> looks
  the label up among the columns. When the label occurs once, the result is that column,
  a series of texts, of the object or the string dtype: the test of line 61 holds and
  line 62 reassigns the column. When the label is repeated, the result is a frame, both
  tests of line 61 are false for it, and nothing is assigned.
\<close>

definition label_positions :: "string \<Rightarrow> dataframe \<Rightarrow> nat list" where
  "label_positions column_name df =
     filter (\<lambda>j. columns df ! j = column_name) [0..<length (columns df)]"

definition strip_labelled :: "string \<Rightarrow> dataframe \<Rightarrow> dataframe" where
  "strip_labelled column_name df =
     (case label_positions column_name df of
        [j] \<Rightarrow> strip_column j df
      | _ \<Rightarrow> df)"

definition strip_columns :: "dataframe \<Rightarrow> dataframe" where
  "strip_columns df = fold strip_labelled (columns df) df"

text \<open>
  Line 65: \<^verbatim>\<open>df.drop_duplicates()\<close> with the default \<^verbatim>\<open>keep="first"\<close>.
  \<^verbatim>\<open>duplicated\<close> marks a row whose values were seen in an earlier row (the index
  label is not compared, and two missing values are equal); the rows not marked are kept
  with their labels. pandas returns an empty frame as it is.
\<close>

fun duplicated :: "'a list \<Rightarrow> 'a list \<Rightarrow> bool list" where
  "duplicated seen [] = []"
| "duplicated seen (v # vs) = (v \<in> set seen) # duplicated (v # seen) vs"

definition keep_unmarked :: "bool list \<Rightarrow> 'b list \<Rightarrow> 'b list" where
  "keep_unmarked marks rs = map snd (filter (\<lambda>(d, r). \<not> d) (zip marks rs))"

definition drop_duplicates :: "dataframe \<Rightarrow> dataframe" where
  "drop_duplicates df =
     (if df_empty df then df
      else df\<lparr>rows := keep_unmarked (duplicated [] (map snd (rows df))) (rows df)\<rparr>)"

text \<open>Lines 44 to 67, on the value of the frame.\<close>

definition clean_dataframe :: "dataframe \<Rightarrow> dataframe" where
  "clean_dataframe df =
     (if df_empty df then df
      else drop_duplicates (strip_columns (df_replace to_replace df)))"

text \<open>Every frame of pandas is rectangular: each row has one value for each column.\<close>

definition rectangular :: "dataframe \<Rightarrow> bool" where
  "rectangular df = list_all (\<lambda>r. length (snd r) = length (columns df)) (rows df)"

subsection \<open>Normalization on shared objects\<close>

text \<open>
  A caller holds a reference to its frame, and \<^verbatim>\<open>clean_dataframe\<close> works with
  \<^verbatim>\<open>inplace=True\<close> and column assignment. To see what the caller can observe, the
  frames live in a heap, a list of objects addressed by position, and the function takes
  the address of its argument and returns the heap it leaves and the address of its result.

  Line 54, \<^verbatim>\<open>df = df.copy()\<close>, allocates a new object holding the same value (the copy
  is deep by default) and rebinds the local name to it; the later statements update the
  object the local name refers to.
\<close>

type_synonym heap = "dataframe list"

definition df_copy :: "heap \<Rightarrow> nat \<Rightarrow> heap \<times> nat" where
  "df_copy h p = (h @ [h ! p], length h)"

definition inplace :: "(dataframe \<Rightarrow> dataframe) \<Rightarrow> nat \<Rightarrow> heap \<Rightarrow> heap" where
  "inplace f p h = h[p := f (h ! p)]"

definition clean_dataframe_heap :: "heap \<Rightarrow> nat \<Rightarrow> heap \<times> nat" where
  "clean_dataframe_heap h p =
     (if df_empty (h ! p) then (h, p)
      else
        let (h1, q) = df_copy h p;
            h2 = inplace (df_replace to_replace) q h1;
            h3 = fold (\<lambda>column_name. inplace (strip_labelled column_name) q) (columns (h2 ! q)) h2;
            h4 = inplace drop_duplicates q h3
        in (h4, q))"

subsection \<open>The destination store\<close>

text \<open>
  The store is reached through two calls of the client libraries: the existence query of
  lines 79 to 90 and \<^verbatim>\<open>DataFrame.to_sql\<close>. Their effect is modelled on a store with
  one schema, which holds named tables of text columns and records every call made to
  it. The store is taken to be reachable and the user to hold the privileges; what is left
  of the errors is the refusal of \<^verbatim>\<open>if_exists="fail"\<close> on an existing table and the
  refusal of an insert that names a column the table does not have.
\<close>

record table =
  tcolumns :: "string list"
  trows :: "cell list list"

datatype if_exists = Fail | Append

datatype store_call = ExistsQuery string | ToSql string if_exists nat

record engine =
  tables :: "(string \<times> table) list"
  calls :: "store_call list"

datatype error = ValueError | DatabaseError

text \<open>
  The \<^verbatim>\<open>SELECT EXISTS\<close> query on \<^verbatim>\<open>information_schema.tables\<close>: it reads, and changes
  no table.
\<close>

definition table_exists :: "engine \<Rightarrow> string \<Rightarrow> bool \<times> engine" where
  "table_exists e name =
     (map_of (tables e) name \<noteq> None, e\<lparr>calls := calls e @ [ExistsQuery name]\<rparr>)"

text \<open>
  \<^verbatim>\<open>INSERT INTO t (names) VALUES (r)\<close>: a column of the table that is not named receives
  the null value.
\<close>

definition insert_row :: "string list \<Rightarrow> string list \<Rightarrow> cell list \<Rightarrow> cell list" where
  "insert_row names tnames r =
     map (\<lambda>c. case map_of (zip names r) c of None \<Rightarrow> None | Some v \<Rightarrow> v) tnames"

text \<open>
  \<^verbatim>\<open>df.to_sql(name, con, if_exists, index=False)\<close>: a table that does not exist is created
  from the columns of the frame; on an existing table \<^verbatim>\<open>"fail"\<close> raises and
  \<^verbatim>\<open>"append"\<close> keeps the table; then the rows are inserted, without their index labels.
\<close>

definition to_sql :: "engine \<Rightarrow> dataframe \<Rightarrow> string \<Rightarrow> if_exists \<Rightarrow> error + engine" where
  "to_sql e df name mode =
     (case map_of (tables e) name of
        None \<Rightarrow>
          Inr (e\<lparr>tables := AList.update name
                   \<lparr>tcolumns = columns df, trows = map snd (rows df)\<rparr> (tables e),
                 calls := calls e @ [ToSql name mode (df_len df)]\<rparr>)
      | Some t \<Rightarrow>
          (case mode of
             Fail \<Rightarrow> Inl ValueError
           | Append \<Rightarrow>
               if set (columns df) \<subseteq> set (tcolumns t)
               then Inr (e\<lparr>tables := AList.update name
                     (t\<lparr>trows := trows t
                          @ map (\<lambda>(l, r). insert_row (columns df) (tcolumns t) r) (rows df)\<rparr>)
                     (tables e),
                   calls := calls e @ [ToSql name mode (df_len df)]\<rparr>)
               else Inl DatabaseError))"

text \<open>Lines 70 to 99.\<close>

definition ensure_table_exists :: "engine \<Rightarrow> string \<Rightarrow> dataframe \<Rightarrow> error + engine" where
  "ensure_table_exists engine table_name sample_df =
     (let (exists, conn) = table_exists engine table_name
      in if \<not> exists then to_sql conn (df_head 0 sample_df) table_name Fail
         else Inr conn)"

text \<open>Lines 102 to 108; the result carries the store next to the count returned.\<close>

definition write_dataframe_to_postgres ::
    "engine \<Rightarrow> dataframe \<Rightarrow> string \<Rightarrow> error + (nat \<times> engine)" where
  "write_dataframe_to_postgres engine df table_name =
     (if df_empty df then Inr (0, engine)
      else case to_sql engine df table_name Append of
             Inl err \<Rightarrow> Inl err
           | Inr engine' \<Rightarrow> Inr (df_len df, engine'))"

subsection \<open>Auxiliary notions for the proofs\<close>

text \<open>The rows that \<^verbatim>\<open>drop_duplicates\<close> keeps, when the values in \<open>seen\<close> came before.\<close>

definition first_rows :: "'a list \<Rightarrow> ('l \<times> 'a) list \<Rightarrow> ('l \<times> 'a) list" where
  "first_rows seen rs = keep_unmarked (duplicated seen (map snd rs)) rs"

text \<open>One step of the loop of lines 60 to 62, on one row.\<close>

definition strip_at :: "nat \<Rightarrow> cell list \<Rightarrow> cell list" where
  "strip_at j r = r[j := strip_cell (r ! j)]"

section \<open>Normalization\<close>

subsection \<open>The rows that survive \<^verbatim>\<open>drop_duplicates\<close>\<close>

lemma first_rows_Nil: "first_rows seen [] = []"
  by (simp add: first_rows_def keep_unmarked_def)

lemma first_rows_Cons:
  "first_rows seen (r # rs) =
     (if snd r \<in> set seen then first_rows (snd r # seen) rs
      else r # first_rows (snd r # seen) rs)"
  by (simp add: first_rows_def keep_unmarked_def)

lemma set_first_rows: "snd ` set (first_rows seen rs) = snd ` set rs - set seen"
  by (induction rs arbitrary: seen) (auto simp: first_rows_Nil first_rows_Cons)

lemma distinct_first_rows: "distinct (map snd (first_rows seen rs))"
proof (induction rs arbitrary: seen)
  case Nil
  show ?case by (simp add: first_rows_Nil)
next
  case (Cons r rs)
  have "snd r \<notin> snd ` set (first_rows (snd r # seen) rs)"
    by (simp add: set_first_rows)
  with Cons show ?case by (simp add: first_rows_Cons)
qed

lemma subseq_first_rows: "subseq (first_rows seen rs) rs"
  by (induction rs arbitrary: seen) (auto simp: first_rows_Nil first_rows_Cons intro: subseq_Cons')

lemma first_rows_positions:
  "first_rows seen rs =
     map (\<lambda>i. rs ! i) (filter (\<lambda>i. snd (rs ! i) \<notin> set seen \<union> snd ` set (take i rs)) [0..<length rs])"
proof (induction rs arbitrary: seen)
  case Nil
  show ?case by (simp add: first_rows_Nil)
next
  case (Cons r rs)
  have upt: "[0..<length (r # rs)] = 0 # map Suc [0..<length rs]"
    by (simp add: upt_conv_Cons map_Suc_upt del: upt_Suc)
  show ?case
    unfolding upt first_rows_Cons Cons.IH
    by (auto simp: filter_map comp_def conj_ac)
qed

subsection \<open>The loop over the columns\<close>

lemma columns_fold_strip_column: "columns (fold strip_column js df) = columns df"
  by (induction js arbitrary: df) (simp_all add: strip_column_def)

lemma rows_strip_column:
  "rows (strip_column j df) = map (\<lambda>(l, r). (l, strip_at j r)) (rows df)"
  by (simp add: strip_column_def strip_at_def)

lemma rows_fold_strip_column:
  "rows (fold strip_column js df) = map (\<lambda>(l, r). (l, fold strip_at js r)) (rows df)"
proof (induction js arbitrary: df)
  case Nil
  show ?case by simp
next
  case (Cons j js)
  show ?case
    by (simp add: Cons.IH rows_strip_column case_prod_unfold comp_def)
qed

lemma fold_strip_at_upt:
  "fold strip_at [0..<n] r = map strip_cell (take n r) @ drop n r"
proof (induction n)
  case 0
  show ?case by simp
next
  case (Suc n)
  have step: "fold strip_at [0..<Suc n] r = strip_at n (fold strip_at [0..<n] r)"
    by simp
  show ?case
  proof (cases "n < length r")
    case True
    have d: "drop n r = r ! n # drop (Suc n) r"
      using True by (simp add: Cons_nth_drop_Suc)
    have "(map strip_cell (take n r) @ drop n r) ! n = r ! n"
      using True by (simp add: nth_append)
    moreover have "(map strip_cell (take n r) @ drop n r)[n := v]
        = map strip_cell (take n r) @ v # drop (Suc n) r" for v
      using True by (simp add: list_update_append d)
    ultimately show ?thesis
      unfolding step Suc.IH using True by (simp add: strip_at_def take_Suc_conv_app_nth)
  next
    case False
    then show ?thesis unfolding step Suc.IH by (simp add: strip_at_def list_update_beyond)
  qed
qed

lemma columns_strip_column: "columns (strip_column j df) = columns df"
  by (simp add: strip_column_def)

lemma length_rows_strip_column: "length (rows (strip_column j df)) = length (rows df)"
  by (simp add: strip_column_def)

lemma columns_strip_labelled: "columns (strip_labelled c df) = columns df"
  by (simp add: strip_labelled_def columns_strip_column split: list.splits)

lemma length_rows_strip_labelled: "length (rows (strip_labelled c df)) = length (rows df)"
  by (simp add: strip_labelled_def length_rows_strip_column split: list.splits)

lemma columns_fold_strip_labelled: "columns (fold strip_labelled cs df) = columns df"
  by (induction cs arbitrary: df) (simp_all add: columns_strip_labelled)

lemma length_rows_fold_strip_labelled:
  "length (rows (fold strip_labelled cs df)) = length (rows df)"
  by (induction cs arbitrary: df) (simp_all add: length_rows_strip_labelled)

lemma filter_eq_upt: "filter (\<lambda>i. i = j) [0..<n] = (if j < n then [j] else [])"
  by (induction n) auto

lemma label_positions_distinct:
  assumes "distinct (columns df)" and "j < length (columns df)"
  shows "label_positions (columns df ! j) df = [j]"
proof -
  have "filter (\<lambda>i. columns df ! i = columns df ! j) [0..<length (columns df)]
      = filter (\<lambda>i. i = j) [0..<length (columns df)]"
    using assms by (intro filter_cong) (auto simp: nth_eq_iff_index_eq)
  with assms(2) show ?thesis
    by (simp add: label_positions_def filter_eq_upt)
qed

lemma strip_labelled_distinct:
  "distinct (columns df) \<Longrightarrow> j < length (columns df) \<Longrightarrow>
   strip_labelled (columns df ! j) df = strip_column j df"
  by (simp add: strip_labelled_def label_positions_distinct)

lemma fold_strip_labelled_distinct:
  assumes "distinct cs" and "columns df = cs" and "set js \<subseteq> {..<length cs}"
  shows "fold strip_labelled (map (\<lambda>j. cs ! j) js) df = fold strip_column js df"
  using assms(2,3)
proof (induction js arbitrary: df)
  case Nil
  show ?case by simp
next
  case (Cons j js)
  have "strip_labelled (cs ! j) df = strip_column j df"
    using strip_labelled_distinct [of df j] assms(1) Cons.prems by simp
  moreover have "columns (strip_column j df) = cs"
    using Cons.prems by (simp add: columns_strip_column)
  ultimately show ?case
    using Cons.IH [of "strip_column j df"] Cons.prems by simp
qed

lemma strip_columns_distinct:
  assumes "distinct (columns df)"
  shows "strip_columns df = fold strip_column [0..<length (columns df)] df"
proof -
  have "columns df = map (\<lambda>j. columns df ! j) [0..<length (columns df)]"
    by (simp add: map_nth)
  then have "strip_columns df
      = fold strip_labelled (map (\<lambda>j. columns df ! j) [0..<length (columns df)]) df"
    by (simp add: strip_columns_def)
  also have "\<dots> = fold strip_column [0..<length (columns df)] df"
    using assms by (intro fold_strip_labelled_distinct) auto
  finally show ?thesis .
qed

lemma rows_strip_columns:
  assumes "distinct (columns df)"
    and "list_all (\<lambda>r. length (snd r) = length (columns df)) (rows df)"
  shows "rows (strip_columns df) = map (\<lambda>(l, r). (l, map strip_cell r)) (rows df)"
  using assms
  by (auto simp: strip_columns_distinct rows_fold_strip_column fold_strip_at_upt list_all_iff)

lemma columns_df_replace: "columns (df_replace d df) = columns df"
  by (simp add: df_replace_def)

lemma rows_df_replace:
  "rows (df_replace d df) = map (\<lambda>(l, r). (l, map (replace_cell d) r)) (rows df)"
  by (simp add: df_replace_def)

lemma columns_strip_columns: "columns (strip_columns df) = columns df"
  by (simp add: strip_columns_def columns_fold_strip_labelled)

lemma rows_strip_columns_Nil_iff: "rows (strip_columns df) = [] \<longleftrightarrow> rows df = []"
  using length_rows_fold_strip_labelled [of "columns df" df]
  by (simp add: strip_columns_def flip: length_0_conv)

lemma df_empty_transformed:
  "df_empty (strip_columns (df_replace d df)) = df_empty df"
  by (simp add: df_empty_def columns_strip_columns rows_strip_columns_Nil_iff
      columns_df_replace rows_df_replace)

lemma rows_clean_dataframe:
  "\<not> df_empty df \<Longrightarrow>
   rows (clean_dataframe df) = first_rows [] (rows (strip_columns (df_replace to_replace df)))"
  by (simp add: clean_dataframe_def drop_duplicates_def df_empty_transformed first_rows_def)

lemma rows_transformed:
  assumes "distinct (columns df)" and "rectangular df"
  shows "rows (strip_columns (df_replace to_replace df))
    = map (\<lambda>(l, r). (l, map (\<lambda>c. strip_cell (replace_cell to_replace c)) r)) (rows df)"
proof -
  have "list_all (\<lambda>r. length (snd r) = length (columns (df_replace to_replace df)))
      (rows (df_replace to_replace df))"
    using assms by (auto simp: rectangular_def columns_df_replace rows_df_replace list_all_iff)
  moreover have "distinct (columns (df_replace to_replace df))"
    using assms by (simp add: columns_df_replace)
  ultimately show ?thesis
    by (simp add: rows_strip_columns rows_df_replace case_prod_unfold comp_def)
qed

text \<open>
  With a repeated label no column passes the test of line 61: the markers are replaced,
  nothing is trimmed, and the two rows below stay different.
\<close>

lemma clean_dataframe_repeated_label:
  "clean_dataframe \<lparr>columns = [''x'', ''x''],
      rows = [(0, [Some ''  Bob  '', Some ''NA'']), (1, [Some ''Bob'', Some ''''])]\<rparr>
   = \<lparr>columns = [''x'', ''x''],
      rows = [(0, [Some ''  Bob  '', None]), (1, [Some ''Bob'', None])]\<rparr>"
  by (simp add: clean_dataframe_def df_empty_def df_replace_def to_replace_def replace_cell_def
      strip_columns_def strip_labelled_def label_positions_def strip_column_def strip_cell_def
      strip_def isspace_def drop_duplicates_def keep_unmarked_def upt_rec)

subsection \<open>Cells\<close>

lemma replace_cell_to_replace:
  "replace_cell to_replace c =
     (if c \<in> {Some '''', Some ''NA'', Some ''N/A'', Some ''null'', Some ''None''} then None else c)"
  by (cases c) (simp_all add: replace_cell_def to_replace_def)

lemma marker_no_space:
  "m \<in> {'''', ''NA'', ''N/A'', ''null'', ''None''} \<Longrightarrow> c \<in> set m \<Longrightarrow> \<not> isspace c"
  by (auto simp: isspace_def)

lemma strip_padded:
  assumes a: "list_all isspace a" and b: "list_all isspace b"
    and m: "m = [] \<or> (\<not> isspace (hd m) \<and> \<not> isspace (last m))"
  shows "strip (a @ m @ b) = m"
proof (cases "m = []")
  case True
  have "\<forall>c\<in>set (a @ b). isspace c"
    using a b by (auto simp: list_all_iff)
  then have "dropWhile isspace (a @ b) = []"
    by (simp only: dropWhile_eq_Nil_conv)
  then show ?thesis
    by (simp only: True strip_def append_Nil rev.simps(1) dropWhile.simps(1))
next
  case False
  with m have h: "\<not> isspace (hd m)" and l: "\<not> isspace (last m)" by simp_all
  have "dropWhile isspace (a @ m @ b) = dropWhile isspace (m @ b)"
    using a by (intro dropWhile_append2) (simp add: list_all_iff)
  also have "\<dots> = m @ b"
    using False h by (cases m) simp_all
  finally have 1: "dropWhile isspace (a @ m @ b) = m @ b" .
  have "dropWhile isspace (rev b @ rev m) = dropWhile isspace (rev m)"
    using b by (intro dropWhile_append2) (simp add: list_all_iff)
  also have "\<dots> = rev m"
    using False l by (cases "rev m") (simp_all add: last_rev[symmetric] hd_rev)
  finally have 2: "dropWhile isspace (rev (m @ b)) = rev m" by simp
  show ?thesis by (simp only: strip_def 1 2 rev_rev_ident)
qed

lemma normalize_padded_marker:
  assumes a: "list_all isspace a" and b: "list_all isspace b" and ab: "a @ b \<noteq> []"
    and m: "m \<in> {'''', ''NA'', ''N/A'', ''null'', ''None''}"
  shows "strip_cell (replace_cell to_replace (Some (a @ m @ b))) = Some m"
proof -
  from ab obtain c where c: "c \<in> set (a @ m @ b)" "isspace c"
    using a b by (cases a; cases b) (auto simp: list_all_iff)
  have "a @ m @ b \<notin> {'''', ''NA'', ''N/A'', ''null'', ''None''}"
    using c marker_no_space [of "a @ m @ b" c] by blast
  then have "replace_cell to_replace (Some (a @ m @ b)) = Some (a @ m @ b)"
    by (simp add: replace_cell_to_replace)
  moreover have "strip (a @ m @ b) = m"
    using a b m by (intro strip_padded) (auto simp: isspace_def)
  ultimately show ?thesis by (simp add: strip_cell_def)
qed

subsection \<open>The claims on \<^verbatim>\<open>clean_dataframe\<close>\<close>

text \<open>
  C1: normalization is meant to be idempotent, and on the one-cell frame holding
  \<^verbatim>\<open>"  NA  "\<close> it is not. The first pass compares the cell with the markers before it
  is trimmed and returns \<^verbatim>\<open>"NA"\<close>; the second pass finds the marker and returns the
  missing value.
\<close>

theorem clean_dataframe_twice_differs:
  "clean_dataframe \<lparr>columns = [''name''], rows = [(0, [Some ''  NA  ''])]\<rparr>
     = \<lparr>columns = [''name''], rows = [(0, [Some ''NA''])]\<rparr>
   \<and> clean_dataframe (clean_dataframe \<lparr>columns = [''name''], rows = [(0, [Some ''  NA  ''])]\<rparr>)
     = \<lparr>columns = [''name''], rows = [(0, [None])]\<rparr>"
  by (simp add: clean_dataframe_def df_empty_def df_replace_def to_replace_def replace_cell_def
      strip_columns_def strip_labelled_def label_positions_def strip_column_def strip_cell_def
      strip_def isspace_def drop_duplicates_def keep_unmarked_def)

text \<open>
  C2: the replacement step of line 57 turns a cell into the missing value exactly when
  the cell is one of the five markers \<^verbatim>\<open>""\<close>, \<^verbatim>\<open>"NA"\<close>, \<^verbatim>\<open>"N/A"\<close>, \<^verbatim>\<open>"null"\<close>,
  \<^verbatim>\<open>"None"\<close>, and leaves every other cell as it is; the comparison is exact, so
  \<^verbatim>\<open>"n/a"\<close> is left.
\<close>

theorem df_replace_exact_markers:
  "df_replace to_replace df =
     df\<lparr>rows := map (\<lambda>(l, r). (l, map (\<lambda>c.
        if c \<in> {Some '''', Some ''NA'', Some ''N/A'', Some ''null'', Some ''None''}
        then None else c) r)) (rows df)\<rparr>
   \<and> replace_cell to_replace (Some ''n/a'') = Some ''n/a''"
  by (simp add: df_replace_def replace_cell_to_replace[abs_def])

text \<open>
  C3: take a dataset with named columns, that is with at least one column and no label
  repeated, and let \<open>T\<close> be its rows after the replacement of the markers and the
  trimming; in a rectangular frame these are the rows with \<open>strip_cell\<close> after
  \<open>replace_cell\<close> applied to every cell. The rows of the normalized dataset have
  pairwise different values, every value of a row of \<open>T\<close> is the value of one of them
  (identical rows keep exactly one occurrence), they are a subsequence of \<open>T\<close> (the
  relative order is kept), and they are the rows of \<open>T\<close> whose value occurs in no
  earlier row of \<open>T\<close> (the first occurrence is the one retained).
\<close>

theorem clean_dataframe_first_occurrences:
  assumes cols: "columns df \<noteq> []" and dist: "distinct (columns df)"
  shows "let T = rows (strip_columns (df_replace to_replace df));
             out = rows (clean_dataframe df)
         in (rectangular df \<longrightarrow>
               T = map (\<lambda>(l, r). (l, map (\<lambda>c. strip_cell (replace_cell to_replace c)) r)) (rows df))
          \<and> distinct (map snd out)
          \<and> snd ` set out = snd ` set T
          \<and> subseq out T
          \<and> out = map (\<lambda>i. T ! i) (filter (\<lambda>i. snd (T ! i) \<notin> snd ` set (take i T)) [0..<length T])"
proof -
  let ?T = "rows (strip_columns (df_replace to_replace df))"
  let ?out = "rows (clean_dataframe df)"
  have cells: "rectangular df \<longrightarrow>
      ?T = map (\<lambda>(l, r). (l, map (\<lambda>c. strip_cell (replace_cell to_replace c)) r)) (rows df)"
    using rows_transformed [OF dist] by blast
  have kept: "distinct (map snd ?out) \<and> snd ` set ?out = snd ` set ?T \<and> subseq ?out ?T
      \<and> ?out = map (\<lambda>i. ?T ! i) (filter (\<lambda>i. snd (?T ! i) \<notin> snd ` set (take i ?T)) [0..<length ?T])"
  proof (cases "rows df = []")
    case True
    then have "?T = []"
      by (simp add: rows_strip_columns_Nil_iff rows_df_replace)
    moreover have "?out = []"
      using True by (simp add: clean_dataframe_def df_empty_def)
    ultimately show ?thesis by simp
  next
    case False
    with cols have "\<not> df_empty df" by (simp add: df_empty_def)
    then have "?out = first_rows [] ?T"
      by (rule rows_clean_dataframe)
    then show ?thesis
      using distinct_first_rows [of "[]" ?T] set_first_rows [of "[]" ?T]
        subseq_first_rows [of "[]" ?T] first_rows_positions [of "[]" ?T]
      by simp
  qed
  from cells kept show ?thesis
    unfolding Let_def by (rule conjI)
qed

theorem clean_dataframe_first_occurrences_witness:
  "columns \<lparr>columns = [''name''],
      rows = [(0, [Some '' Ann '']), (1, [Some ''Bob'']), (2, [Some ''Ann''])]\<rparr> \<noteq> []
   \<and> distinct (columns \<lparr>columns = [''name''],
      rows = [(0, [Some '' Ann '']), (1, [Some ''Bob'']), (2, [Some ''Ann''])]\<rparr>)
   \<and> rows (clean_dataframe \<lparr>columns = [''name''],
      rows = [(0, [Some '' Ann '']), (1, [Some ''Bob'']), (2, [Some ''Ann''])]\<rparr>)
     = [(0, [Some ''Ann'']), (1, [Some ''Bob''])]
   \<and> distinct (map snd (rows (clean_dataframe \<lparr>columns = [''name''],
      rows = [(0, [Some '' Ann '']), (1, [Some ''Bob'']), (2, [Some ''Ann''])]\<rparr>)))"
proof -
  let ?d = "\<lparr>columns = [''name''],
      rows = [(0 :: nat, [Some '' Ann '']), (1, [Some ''Bob'']), (2, [Some ''Ann''])]\<rparr>"
  have cols: "columns ?d \<noteq> []" by simp
  have dist: "distinct (columns ?d)" by simp
  have run: "rows (clean_dataframe ?d) = [(0, [Some ''Ann'']), (1, [Some ''Bob''])]"
    by (simp add: clean_dataframe_def df_empty_def df_replace_def to_replace_def replace_cell_def
        strip_columns_def strip_labelled_def label_positions_def strip_column_def strip_cell_def
        strip_def isspace_def drop_duplicates_def keep_unmarked_def)
  from clean_dataframe_first_occurrences [OF cols dist]
  have "distinct (map snd (rows (clean_dataframe ?d)))"
    unfolding Let_def by (rule conjunct2 [THEN conjunct1])
  with cols dist run show ?thesis by simp
qed

text \<open>
  C4: the two rows \<^verbatim>\<open>["  Bob  ", "NA"]\<close> and \<^verbatim>\<open>["Bob", ""]\<close>, over any two columns of
  different labels and under any two index labels, are normalized to the single row
  \<^verbatim>\<open>["Bob", null]\<close>, which carries the label of the first.
\<close>

theorem clean_bob_scenario:
  assumes "c1 \<noteq> c2"
  shows "clean_dataframe \<lparr>columns = [c1, c2],
      rows = [(i, [Some ''  Bob  '', Some ''NA'']), (j, [Some ''Bob'', Some ''''])]\<rparr>
   = \<lparr>columns = [c1, c2], rows = [(i, [Some ''Bob'', None])]\<rparr>"
proof -
  let ?d = "\<lparr>columns = [c1, c2],
      rows = [(i, [Some ''  Bob  '', Some ''NA'']), (j, [Some ''Bob'', Some ''''])]\<rparr>"
  have "distinct (columns (df_replace to_replace ?d))"
    using assms by (simp add: df_replace_def)
  then have "strip_columns (df_replace to_replace ?d)
      = fold strip_column [0..<length (columns (df_replace to_replace ?d))] (df_replace to_replace ?d)"
    by (rule strip_columns_distinct)
  then show ?thesis
    by (simp add: clean_dataframe_def df_empty_def df_replace_def to_replace_def replace_cell_def
        strip_column_def strip_cell_def strip_def isspace_def
        drop_duplicates_def keep_unmarked_def upt_rec)
qed

theorem clean_bob_scenario_witness:
  "''name'' \<noteq> ''status''
   \<and> clean_dataframe \<lparr>columns = [''name'', ''status''],
      rows = [(0, [Some ''  Bob  '', Some ''NA'']), (1, [Some ''Bob'', Some ''''])]\<rparr>
   = \<lparr>columns = [''name'', ''status''], rows = [(0, [Some ''Bob'', None])]\<rparr>"
  using clean_bob_scenario [of "''name''" "''status''" 0 1]
  by simp

text \<open>
  C6: a dataset with zero rows passes through normalization unchanged: the result is
  the dataset itself, with its columns and no row.
\<close>

theorem clean_dataframe_empty:
  "rows df = [] \<Longrightarrow> clean_dataframe df = df"
  by (simp add: clean_dataframe_def df_empty_def)

theorem clean_dataframe_empty_witness:
  "rows \<lparr>columns = [''name'', ''city''], rows = []\<rparr> = []
   \<and> clean_dataframe \<lparr>columns = [''name'', ''city''], rows = []\<rparr>
     = \<lparr>columns = [''name'', ''city''], rows = []\<rparr>"
  using clean_dataframe_empty [of "\<lparr>columns = [''name'', ''city''], rows = []\<rparr>"]
  by simp

text \<open>
  C10: the markers are replaced before the cells are trimmed. In a rectangular frame
  whose column labels are distinct, take a cell made of a marker \<open>m\<close> between two runs
  of whitespace \<open>a\<close> and \<open>b\<close>, not both empty; with the empty marker this is a cell of
  whitespace only. The row of that cell is normalized to a row of the result in which
  the cell is the text \<open>m\<close>, not the missing value: the empty text for \<^verbatim>\<open>"   "\<close>, the
  text \<^verbatim>\<open>"NA"\<close> for \<^verbatim>\<open>"  NA  "\<close>.
\<close>

theorem clean_dataframe_replaces_before_stripping:
  assumes dist: "distinct (columns df)" and rect: "rectangular df"
    and row: "(l, r) \<in> set (rows df)" and j: "j < length r"
    and cell: "r ! j = Some (a @ m @ b)"
    and a: "list_all isspace a" and b: "list_all isspace b" and ab: "a @ b \<noteq> []"
    and m: "m \<in> {'''', ''NA'', ''N/A'', ''null'', ''None''}"
  shows "\<exists>r'. r' \<in> snd ` set (rows (clean_dataframe df))
      \<and> r' = map (\<lambda>c. strip_cell (replace_cell to_replace c)) r
      \<and> r' ! j = Some m"
proof -
  let ?n = "\<lambda>c. strip_cell (replace_cell to_replace c)"
  have "length r = length (columns df)"
    using rect row by (auto simp: rectangular_def list_all_iff)
  with row j have "\<not> df_empty df" by (auto simp: df_empty_def)
  then have out: "snd ` set (rows (clean_dataframe df))
      = snd ` set (rows (strip_columns (df_replace to_replace df)))"
    by (simp add: rows_clean_dataframe set_first_rows)
  have "(l, map ?n r) \<in> (\<lambda>(l, r). (l, map ?n r)) ` set (rows df)"
    using row by (rule rev_image_eqI) simp
  then have "(l, map ?n r) \<in> set (rows (strip_columns (df_replace to_replace df)))"
    by (simp only: rows_transformed [OF dist rect] set_map)
  then have "snd (l, map ?n r) \<in> snd ` set (rows (strip_columns (df_replace to_replace df)))"
    by (rule imageI)
  then have 1: "map ?n r \<in> snd ` set (rows (clean_dataframe df))"
    by (simp only: out snd_conv)
  have "map ?n r ! j = ?n (r ! j)"
    using j by simp
  also have "\<dots> = Some m"
    by (simp only: cell normalize_padded_marker [OF a b ab m])
  finally have 2: "map ?n r ! j = Some m" .
  from 1 2 show ?thesis by blast
qed

theorem clean_dataframe_replaces_before_stripping_witness:
  "distinct (columns \<lparr>columns = [''name'', ''city''], rows = [(0, [Some ''   '', Some ''  NA  ''])]\<rparr>)
   \<and> rectangular \<lparr>columns = [''name'', ''city''], rows = [(0, [Some ''   '', Some ''  NA  ''])]\<rparr>
   \<and> (\<exists>r'. r' \<in> snd ` set (rows (clean_dataframe
          \<lparr>columns = [''name'', ''city''], rows = [(0, [Some ''   '', Some ''  NA  ''])]\<rparr>))
        \<and> r' ! 0 = Some '''' \<and> r' ! 1 = Some ''NA'')"
proof -
  let ?df = "\<lparr>columns = [''name'', ''city''], rows = [(0 :: nat, [Some ''   '', Some ''  NA  ''])]\<rparr>"
  have dist: "distinct (columns ?df)" by simp
  have rect: "rectangular ?df" by (simp add: rectangular_def)
  have sp: "list_all isspace ''   ''" "list_all isspace ''  ''" "list_all isspace ''''"
    by (simp_all add: isspace_def)
  from clean_dataframe_replaces_before_stripping
    [of ?df 0 "[Some ''   '', Some ''  NA  '']" 0 "''   ''" "''''" "''''"]
  have 1: "\<exists>r'. r' \<in> snd ` set (rows (clean_dataframe ?df))
      \<and> r' = map (\<lambda>c. strip_cell (replace_cell to_replace c)) [Some ''   '', Some ''  NA  '']
      \<and> r' ! 0 = Some ''''"
    using dist rect sp by simp
  from clean_dataframe_replaces_before_stripping
    [of ?df 0 "[Some ''   '', Some ''  NA  '']" 1 "''  ''" "''NA''" "''  ''"]
  have 2: "\<exists>r'. r' \<in> snd ` set (rows (clean_dataframe ?df))
      \<and> r' = map (\<lambda>c. strip_cell (replace_cell to_replace c)) [Some ''   '', Some ''  NA  '']
      \<and> r' ! 1 = Some ''NA''"
    using dist rect sp by simp
  from 1 2 dist rect show ?thesis by metis
qed

section \<open>The caller's dataset\<close>

lemma fold_inplace:
  "q < length h \<Longrightarrow> fold (\<lambda>j. inplace (g j) q) js h = h[q := fold g js (h ! q)]"
  by (induction js arbitrary: h) (simp_all add: inplace_def)

lemma clean_dataframe_heap_eq:
  "clean_dataframe_heap h p =
     (if df_empty (h ! p) then (h, p) else (h @ [clean_dataframe (h ! p)], length h))"
  by (simp add: clean_dataframe_heap_def df_copy_def inplace_def fold_inplace
      clean_dataframe_def strip_columns_def Let_def)

text \<open>
  C5: normalization does not change the dataset of its caller. Whatever the heap and the
  address \<open>p\<close> of the argument, every object that existed before the call, the argument
  among them, has the same value after it; the object returned holds the normalized
  value; and it is the argument itself when the argument is empty, a new object otherwise.
\<close>

theorem clean_dataframe_heap_frame:
  assumes "p < length h" and "clean_dataframe_heap h p = (h', q)"
  shows "(\<forall>a<length h. h' ! a = h ! a)
       \<and> h' ! q = clean_dataframe (h ! p)
       \<and> (if df_empty (h ! p) then q = p \<and> h' = h else q = length h \<and> length h' = Suc (length h))"
  using assms
  by (auto simp: clean_dataframe_heap_eq nth_append clean_dataframe_def split: if_splits)

theorem clean_dataframe_heap_frame_witness:
  "(0::nat) < length [\<lparr>columns = [''name''], rows = [(0, [Some '' Ann '']), (1, [Some ''Ann''])]\<rparr>]
   \<and> clean_dataframe_heap [\<lparr>columns = [''name''], rows = [(0, [Some '' Ann '']), (1, [Some ''Ann''])]\<rparr>] 0
     = ([\<lparr>columns = [''name''], rows = [(0, [Some '' Ann '']), (1, [Some ''Ann''])]\<rparr>,
         \<lparr>columns = [''name''], rows = [(0, [Some ''Ann''])]\<rparr>], 1)
   \<and> [\<lparr>columns = [''name''], rows = [(0, [Some '' Ann '']), (1, [Some ''Ann''])]\<rparr>,
       \<lparr>columns = [''name''], rows = [(0, [Some ''Ann''])]\<rparr>] ! 0
     = [\<lparr>columns = [''name''], rows = [(0 :: nat, [Some '' Ann '']), (1, [Some ''Ann''])]\<rparr>] ! 0"
proof -
  let ?d = "\<lparr>columns = [''name''], rows = [(0 :: nat, [Some '' Ann '']), (1, [Some ''Ann''])]\<rparr>"
  let ?c = "\<lparr>columns = [''name''], rows = [(0 :: nat, [Some ''Ann''])]\<rparr>"
  have run: "clean_dataframe_heap [?d] 0 = ([?d, ?c], 1)"
    by (simp add: clean_dataframe_heap_def df_copy_def inplace_def df_empty_def df_replace_def
        to_replace_def replace_cell_def strip_labelled_def label_positions_def strip_column_def
        strip_cell_def strip_def isspace_def drop_duplicates_def keep_unmarked_def)
  have len: "(0::nat) < length [?d]" by simp
  from clean_dataframe_heap_frame [OF len run] run len show ?thesis by simp
qed

section \<open>Schema ensure and append\<close>

text \<open>
  C7: appending a dataset with zero rows returns 0 and leaves the store as it was, the
  record of the calls made to it included: no call reaches the store.
\<close>

theorem write_empty_dataframe:
  "rows df = [] \<Longrightarrow> write_dataframe_to_postgres e df name = Inr (0, e)"
  by (simp add: write_dataframe_to_postgres_def df_empty_def)

theorem write_empty_dataframe_witness:
  "rows \<lparr>columns = [''name''], rows = []\<rparr> = []
   \<and> write_dataframe_to_postgres \<lparr>tables = [], calls = []\<rparr>
         \<lparr>columns = [''name''], rows = []\<rparr> ''csv_data''
     = Inr (0, \<lparr>tables = [], calls = []\<rparr>)"
  using write_empty_dataframe [of "\<lparr>columns = [''name''], rows = []\<rparr>"
      "\<lparr>tables = [], calls = []\<rparr>" "''csv_data''"]
  by simp

text \<open>
  C8: on a store that has no table of the given name, a first call of
  \<^verbatim>\<open>ensure_table_exists\<close> creates the table, with the columns of the sample and no row,
  and a second call with the same name changes no table. The table is created once: the
  two calls together send the existence query, the creating \<^verbatim>\<open>to_sql\<close>, and the
  existence query again.
\<close>

theorem ensure_table_exists_twice:
  assumes "map_of (tables e) name = None"
  shows "\<exists>e1 e2. ensure_table_exists e name df = Inr e1
      \<and> ensure_table_exists e1 name df = Inr e2
      \<and> map_of (tables e1) name = Some \<lparr>tcolumns = columns df, trows = []\<rparr>
      \<and> tables e2 = tables e1
      \<and> calls e1 = calls e @ [ExistsQuery name, ToSql name Fail 0]
      \<and> calls e2 = calls e1 @ [ExistsQuery name]"
  using assms
  by (simp add: ensure_table_exists_def table_exists_def to_sql_def df_head_def df_len_def
      update_conv')

theorem ensure_table_exists_twice_witness:
  "map_of (tables \<lparr>tables = [], calls = []\<rparr>) ''csv_data'' = None
   \<and> ensure_table_exists \<lparr>tables = [], calls = []\<rparr> ''csv_data''
        \<lparr>columns = [''name''], rows = [(0, [Some ''Bob''])]\<rparr>
     = Inr \<lparr>tables = [(''csv_data'', \<lparr>tcolumns = [''name''], trows = []\<rparr>)],
            calls = [ExistsQuery ''csv_data'', ToSql ''csv_data'' Fail 0]\<rparr>
   \<and> ensure_table_exists
        \<lparr>tables = [(''csv_data'', \<lparr>tcolumns = [''name''], trows = []\<rparr>)],
          calls = [ExistsQuery ''csv_data'', ToSql ''csv_data'' Fail 0]\<rparr> ''csv_data''
        \<lparr>columns = [''name''], rows = [(0, [Some ''Bob''])]\<rparr>
     = Inr \<lparr>tables = [(''csv_data'', \<lparr>tcolumns = [''name''], trows = []\<rparr>)],
            calls = [ExistsQuery ''csv_data'', ToSql ''csv_data'' Fail 0, ExistsQuery ''csv_data'']\<rparr>"
  using ensure_table_exists_twice [of "\<lparr>tables = [], calls = []\<rparr>" "''csv_data''"
      "\<lparr>columns = [''name''], rows = [(0, [Some ''Bob''])]\<rparr>"]
  by (simp add: ensure_table_exists_def table_exists_def to_sql_def df_head_def df_len_def)

text \<open>
  C9: appending a non-empty dataset of N rows to an existing table with the columns of
  the dataset succeeds and returns N; the table has N rows more, and one \<^verbatim>\<open>to_sql\<close>
  call of N rows reached the store.
\<close>

theorem write_returns_row_count:
  assumes "map_of (tables e) name = Some t" and "tcolumns t = columns df"
    and "\<not> df_empty df"
  shows "\<exists>e' t'. write_dataframe_to_postgres e df name = Inr (length (rows df), e')
      \<and> map_of (tables e') name = Some t'
      \<and> length (trows t') = length (trows t) + length (rows df)
      \<and> calls e' = calls e @ [ToSql name Append (length (rows df))]"
  using assms
  by (simp add: write_dataframe_to_postgres_def to_sql_def df_len_def update_conv')

theorem write_returns_row_count_witness:
  "map_of (tables \<lparr>tables = [(''csv_data'', \<lparr>tcolumns = [''name''], trows = [[Some ''Ann'']]\<rparr>)],
                   calls = []\<rparr>) ''csv_data''
     = Some \<lparr>tcolumns = [''name''], trows = [[Some ''Ann'']]\<rparr>
   \<and> \<not> df_empty \<lparr>columns = [''name''], rows = [(0, [Some ''Bob'']), (1, [None])]\<rparr>
   \<and> (\<exists>e'. write_dataframe_to_postgres
          \<lparr>tables = [(''csv_data'', \<lparr>tcolumns = [''name''], trows = [[Some ''Ann'']]\<rparr>)], calls = []\<rparr>
          \<lparr>columns = [''name''], rows = [(0, [Some ''Bob'']), (1, [None])]\<rparr> ''csv_data''
        = Inr (2, e'))"
  using write_returns_row_count
    [of "\<lparr>tables = [(''csv_data'', \<lparr>tcolumns = [''name''], trows = [[Some ''Ann'']]\<rparr>)], calls = []\<rparr>"
      "''csv_data''" "\<lparr>tcolumns = [''name''], trows = [[Some ''Ann'']]\<rparr>"
      "\<lparr>columns = [''name''], rows = [(0, [Some ''Bob'']), (1, [None])]\<rparr>"]
  by (auto simp: df_empty_def numeral_2_eq_2)

end
